theory Spec2Isabelle
  imports Complex_Main
begin

section \<open>Tensors and the framework primitives used by networks.py\<close>

text \<open>
  networks.py works on three-dimensional tensors (batch, channel, time). A tensor is
  modelled with its shape written out and its entries as a function of the three
  indices. An entry is carried as a real number, and the elementwise functions and
  the matrix product are written with the operations on real numbers. The program
  computes on machine floats, where every result is rounded and infinities and NaN
  occur. The theorems about the forward methods are therefore about shapes, about
  the entries of the input an entry of the output is computed from, and about
  failures; where a statement reads the arithmetic exactly, its text says so.
\<close>

record tensor =
  dimN :: nat
  dimC :: nat
  dimT :: nat
  elt :: "nat \<Rightarrow> nat \<Rightarrow> nat \<Rightarrow> real"

definition mk_tensor :: "nat \<Rightarrow> nat \<Rightarrow> nat \<Rightarrow> (nat \<Rightarrow> nat \<Rightarrow> nat \<Rightarrow> real) \<Rightarrow> tensor" where
  "mk_tensor N C T f =
     \<lparr>dimN = N, dimC = C, dimT = T,
      elt = (\<lambda>n c t. if n < N \<and> c < C \<and> t < T then f n c t else 0)\<rparr>"

definition shape :: "tensor \<Rightarrow> nat \<times> nat \<times> nat" where
  "shape x = (dimN x, dimC x, dimT x)"

text \<open>Python exceptions that can reach a caller of a forward method: the framework's
  RuntimeError (shape mismatch) and the interpreter's ValueError (tuple unpacking).\<close>

datatype error = RuntimeError | ValueError

type_synonym 'a result = "error + 'a"

text \<open>A callable sub-module: it returns a tensor or raises.\<close>

type_synonym layer = "tensor \<Rightarrow> tensor result"

definition rbind :: "'a result \<Rightarrow> ('a \<Rightarrow> 'b result) \<Rightarrow> 'b result" where
  "rbind r f = (case r of Inl e \<Rightarrow> Inl e | Inr v \<Rightarrow> f v)"

text \<open>Elementwise functions: torch.tanh, torch.sigmoid, torch.relu.\<close>

definition pointwise :: "(real \<Rightarrow> real) \<Rightarrow> tensor \<Rightarrow> tensor" where
  "pointwise g x = mk_tensor (dimN x) (dimC x) (dimT x) (\<lambda>n c t. g (elt x n c t))"

definition sigmoid :: "real \<Rightarrow> real" where
  "sigmoid v = 1 / (1 + exp (- v))"

definition relu :: "real \<Rightarrow> real" where
  "relu v = max 0 v"

definition torch_tanh :: "tensor \<Rightarrow> tensor" where
  "torch_tanh x = pointwise tanh x"

definition torch_sigmoid :: "tensor \<Rightarrow> tensor" where
  "torch_sigmoid x = pointwise sigmoid x"

text \<open>x.transpose(1, 2): the channel and the time axis change places.\<close>

definition transpose12 :: "tensor \<Rightarrow> tensor" where
  "transpose12 x = mk_tensor (dimN x) (dimT x) (dimC x) (\<lambda>n i j. elt x n j i)"

text \<open>torch.bmm(a, b): a batch of matrix products; the batch sizes and the inner
  dimensions have to agree, otherwise the framework raises RuntimeError.\<close>

definition bmm :: "tensor \<Rightarrow> tensor \<Rightarrow> tensor result" where
  "bmm a b =
     (if dimN a = dimN b \<and> dimT a = dimC b
      then Inr (mk_tensor (dimN a) (dimC a) (dimT b)
                  (\<lambda>n i j. \<Sum>k<dimT a. elt a n i k * elt b n k j))
      else Inl RuntimeError)"

text \<open>
  The scalar routines behind \<^verbatim>\<open>np.sqrt(d_k)\<close>, the division of a tensor by a
  scalar and torch.softmax. On floats the division by a zero gives an infinity or
  NaN, the softmax of a column with a NaN score is NaN, and the entries of a softmax
  column need not sum to one after rounding. The numbers these routines return are
  therefore not fixed here: the routines are parameters, and the definitions of the
  tensor operations say to which entries a routine is applied and what shape the
  result has.
\<close>

record numerics =
  np_sqrt :: "nat \<Rightarrow> real"
  true_divide :: "real \<Rightarrow> real \<Rightarrow> real"
  softmax_column :: "real list \<Rightarrow> nat \<Rightarrow> real"

text \<open>Division of a tensor by a scalar: every entry is divided by it.\<close>

definition div_scalar :: "numerics \<Rightarrow> tensor \<Rightarrow> real \<Rightarrow> tensor" where
  "div_scalar num x r = pointwise (\<lambda>v. true_divide num v r) x"

text \<open>torch.softmax(x, dim=1): entry (n, i, j) of the result is entry i of the
  softmax of the column of x along axis 1 at batch index n and position j.\<close>

definition softmax_dim1 :: "numerics \<Rightarrow> tensor \<Rightarrow> tensor" where
  "softmax_dim1 num x =
     mk_tensor (dimN x) (dimC x) (dimT x)
       (\<lambda>n i j. softmax_column num (map (\<lambda>i'. elt x n i' j) [0..<dimC x]) i)"

section \<open>The layer classes networks.py imports\<close>

text \<open>
  networks.py builds its modules from classes of \<^verbatim>\<open>layers\<close> (imported as ll) and
  \<^verbatim>\<open>modules\<close> (imported as mm) and wraps most of them in
  torch.nn.utils.weight_norm (imported as norm). Their code is not part of
  networks.py, so the constructors are parameters of the model: a record with one field
  per class, each taking the learned parameters of the layer first (type \<open>'p\<close>) and
  then the arguments networks.py passes. A keyword argument that some call leaves out
  is an option. The activation torch.relu acts elementwise and is passed as a function
  on scalars.
\<close>

record 'p layers =
  Conv1d :: "'p \<Rightarrow> nat \<Rightarrow> nat \<Rightarrow> nat \<Rightarrow> string \<Rightarrow> (real \<Rightarrow> real) option \<Rightarrow> layer"
  HighwayConv1d :: "'p \<Rightarrow> nat \<Rightarrow> nat \<Rightarrow> nat \<Rightarrow> nat \<Rightarrow> string \<Rightarrow> layer"
  CausalConv1d :: "'p \<Rightarrow> nat \<Rightarrow> nat \<Rightarrow> nat \<Rightarrow> nat option \<Rightarrow> (real \<Rightarrow> real) option \<Rightarrow> layer"
  CausalHighwayConv1d :: "'p \<Rightarrow> nat \<Rightarrow> nat \<Rightarrow> nat \<Rightarrow> nat \<Rightarrow> layer"
  CustomConv1d :: "'p \<Rightarrow> nat \<Rightarrow> nat \<Rightarrow> nat \<Rightarrow> layer"

record 'p modules =
  ResidualBlock1d :: "'p \<Rightarrow> nat \<Rightarrow> nat \<Rightarrow> nat \<Rightarrow> layer"

text \<open>The loop of the three forward methods over \<^verbatim>\<open>self.hc_blocks\<close>, and the
  call of an nn.Sequential: the blocks are applied in order, each to the result of
  the one before; a block that raises ends the call.\<close>

fun run_blocks :: "layer list \<Rightarrow> tensor \<Rightarrow> tensor result" where
  "run_blocks [] y = Inr y"
| "run_blocks (b # bs) y = rbind (b y) (run_blocks bs)"

section \<open>TextEncoder\<close>

text \<open>y.chunk(2, dim=1): pieces of ceil(C / chunks) channels each, the last one
  shorter, and fewer pieces than asked for when the channels run out; on an empty
  channel axis the framework returns the number of pieces asked for, all empty.\<close>

definition narrow_dim1 :: "tensor \<Rightarrow> nat \<Rightarrow> nat \<Rightarrow> tensor" where
  "narrow_dim1 x start len =
     mk_tensor (dimN x) len (dimT x) (\<lambda>n c t. elt x n (start + c) t)"

definition chunk_dim1 :: "tensor \<Rightarrow> nat \<Rightarrow> tensor list" where
  "chunk_dim1 x chunks =
     (let C = dimC x; split_size = (C + chunks - 1) div chunks in
      if split_size = 0 then replicate chunks (narrow_dim1 x 0 0)
      else map (\<lambda>i. narrow_dim1 x (i * split_size) (min split_size (C - i * split_size)))
             [0..<(C + split_size - 1) div split_size])"

text \<open>The assignment \<^verbatim>\<open>K, V = ...\<close>: Python raises ValueError unless the
  right-hand side has exactly two elements.\<close>

definition unpack2 :: "'a list \<Rightarrow> ('a \<times> 'a) result" where
  "unpack2 xs = (case xs of [a, b] \<Rightarrow> Inr (a, b) | _ \<Rightarrow> Inl ValueError)"

record TextEncoder =
  hc_blocks :: "layer list"

definition TextEncoder_init ::
  "(layer \<Rightarrow> layer) \<Rightarrow> 'p layers \<Rightarrow> (nat \<Rightarrow> 'p) \<Rightarrow> nat \<Rightarrow> nat \<Rightarrow> nat \<Rightarrow> TextEncoder" where
  "TextEncoder_init weight_norm ll \<theta> d_in d_out d_hidden =
     TextEncoder.make
       ([weight_norm (Conv1d ll (\<theta> 0) d_in d_hidden 1 ''same'' (Some relu))]
        @ [weight_norm (Conv1d ll (\<theta> 1) d_hidden d_hidden 1 ''same'' None)]
        @ concat (map (\<lambda>r. map (\<lambda>i.
              weight_norm (HighwayConv1d ll (\<theta> (2 + 4 * r + i)) d_hidden d_hidden 3 (3 ^ i) ''same''))
              [0..<4]) [0..<2])
        @ map (\<lambda>i. weight_norm (HighwayConv1d ll (\<theta> (10 + i)) d_hidden d_hidden 3 1 ''same'')) [0..<2]
        @ map (\<lambda>i. weight_norm (HighwayConv1d ll (\<theta> (12 + i)) d_hidden d_hidden 1 1 ''same'')) [0..<2])"

definition TextEncoder_forward :: "TextEncoder \<Rightarrow> tensor \<Rightarrow> (tensor \<times> tensor) result" where
  "TextEncoder_forward self L =
     rbind (run_blocks (TextEncoder.hc_blocks self) L) (\<lambda>y. unpack2 (chunk_dim1 y 2))"

section \<open>AudioEncoder\<close>

record AudioEncoder =
  hc_blocks :: "layer list"

definition AudioEncoder_init ::
  "(layer \<Rightarrow> layer) \<Rightarrow> 'p layers \<Rightarrow> (nat \<Rightarrow> 'p) \<Rightarrow> nat \<Rightarrow> nat \<Rightarrow> nat \<Rightarrow> AudioEncoder" where
  "AudioEncoder_init weight_norm ll \<theta> d_in d_out d_hidden =
     AudioEncoder.make
       ([weight_norm (CausalConv1d ll (\<theta> 0) d_in d_hidden 1 None (Some relu))]
        @ map (\<lambda>i. weight_norm (CausalConv1d ll (\<theta> (1 + i)) d_hidden d_hidden 1 None (Some relu))) [0..<2]
        @ concat (map (\<lambda>r. map (\<lambda>i.
              weight_norm (CausalHighwayConv1d ll (\<theta> (3 + 4 * r + i)) d_hidden d_hidden 3 (3 ^ i)))
              [0..<4]) [0..<2])
        @ map (\<lambda>i. weight_norm (CausalHighwayConv1d ll (\<theta> (11 + i)) d_hidden d_out 3 3)) [0..<2])"

definition AudioEncoder_forward :: "AudioEncoder \<Rightarrow> tensor \<Rightarrow> tensor result" where
  "AudioEncoder_forward self S = run_blocks (AudioEncoder.hc_blocks self) S"

section \<open>AudioDecoder\<close>

record AudioDecoder =
  hc_blocks :: "layer list"

definition AudioDecoder_init ::
  "(layer \<Rightarrow> layer) \<Rightarrow> 'p layers \<Rightarrow> (nat \<Rightarrow> 'p) \<Rightarrow> nat \<Rightarrow> nat \<Rightarrow> nat \<Rightarrow> AudioDecoder" where
  "AudioDecoder_init weight_norm ll \<theta> d_in d_out d_hidden =
     AudioDecoder.make
       ([weight_norm (CausalConv1d ll (\<theta> 0) d_in d_hidden 1 None (Some relu))]
        @ map (\<lambda>i. weight_norm (CausalHighwayConv1d ll (\<theta> (1 + i)) d_hidden d_hidden 3 (3 ^ i))) [0..<4]
        @ map (\<lambda>i. weight_norm (CausalHighwayConv1d ll (\<theta> (5 + i)) d_hidden d_hidden 3 1)) [0..<2]
        @ map (\<lambda>i. weight_norm (CausalConv1d ll (\<theta> (7 + i)) d_hidden d_hidden 1 (Some 1) (Some relu))) [0..<3]
        @ [weight_norm (CausalConv1d ll (\<theta> 10) d_hidden d_out 1 (Some 1) None)])"

definition AudioDecoder_forward :: "AudioDecoder \<Rightarrow> tensor \<Rightarrow> tensor result" where
  "AudioDecoder_forward self R' =
     rbind (run_blocks (AudioDecoder.hc_blocks self) R') (\<lambda>Y. Inr (torch_sigmoid Y))"

section \<open>PostNet\<close>

text \<open>nn.Upsample(scale_factor, mode='nearest') on a (batch, channel, time) tensor:
  the time axis grows by the integer factor and output position t reads input
  position t div scale_factor. The framework rejects an empty channel or time axis.\<close>

definition Upsample_nearest :: "nat \<Rightarrow> layer" where
  "Upsample_nearest scale_factor x =
     (if dimC x = 0 \<or> dimT x = 0 \<or> dimT x * scale_factor = 0 then Inl RuntimeError
      else Inr (mk_tensor (dimN x) (dimC x) (dimT x * scale_factor)
                  (\<lambda>n c t. elt x n c (min (t div scale_factor) (dimT x - 1)))))"

definition Sequential :: "layer list \<Rightarrow> layer" where
  "Sequential ms = run_blocks ms"

record PostNet =
  nets :: layer

definition PostNet_init ::
  "'p modules \<Rightarrow> (nat \<Rightarrow> 'p) \<Rightarrow> nat \<Rightarrow> nat \<Rightarrow> nat \<Rightarrow> PostNet" where
  "PostNet_init mm \<theta> d_in d_out d_hidden =
     \<lparr>nets = Sequential
        [Upsample_nearest 2,
         ResidualBlock1d mm (\<theta> 1) d_in d_hidden 5,
         Upsample_nearest 2,
         ResidualBlock1d mm (\<theta> 3) d_hidden d_hidden 5,
         ResidualBlock1d mm (\<theta> 4) d_hidden d_out 5]\<rparr>"

definition PostNet_forward :: "PostNet \<Rightarrow> tensor \<Rightarrow> tensor result" where
  "PostNet_forward self x = rbind (nets self x) (\<lambda>y. Inr (torch_sigmoid y))"

section \<open>DotProductAttention\<close>

record DotProductAttention =
  d_k :: nat
  linear_q :: layer
  linear_k :: layer
  linear_v :: layer

definition DotProductAttention_init ::
  "'p layers \<Rightarrow> (nat \<Rightarrow> 'p) \<Rightarrow> nat \<Rightarrow> DotProductAttention" where
  "DotProductAttention_init ll \<theta> d_hidden =
     \<lparr>d_k = d_hidden,
      linear_q = CustomConv1d ll (\<theta> 0) d_hidden d_hidden 1,
      linear_k = CustomConv1d ll (\<theta> 1) d_hidden d_hidden 1,
      linear_v = CustomConv1d ll (\<theta> 2) d_hidden d_hidden 1\<rparr>"

definition DotProductAttention_forward ::
  "numerics \<Rightarrow> DotProductAttention \<Rightarrow> tensor \<Rightarrow> tensor \<Rightarrow> tensor
     \<Rightarrow> (tensor \<times> tensor) result" where
  "DotProductAttention_forward num self Q K V =
     rbind (linear_q self Q) (\<lambda>q. let Q' = torch_tanh q in
     rbind (linear_k self K) (\<lambda>k. let K' = torch_tanh k in
     rbind (linear_v self V) (\<lambda>v. let V' = torch_tanh v in
     rbind (bmm (transpose12 K') Q') (\<lambda>S.
       let A = softmax_dim1 num (div_scalar num S (np_sqrt num (d_k self))) in
     rbind (bmm V' A) (\<lambda>R. Inr (R, A))))))"

section \<open>Properties of layers\<close>

text \<open>Two tensors agree up to time t: they have the same batch and channel sizes,
  both have a time step t, and they have the same entries at all time steps up to
  and including t.\<close>

definition agree_upto :: "nat \<Rightarrow> tensor \<Rightarrow> tensor \<Rightarrow> bool" where
  "agree_upto t x x' \<longleftrightarrow>
     dimN x = dimN x' \<and> dimC x = dimC x' \<and> t < dimT x \<and> t < dimT x' \<and>
     (\<forall>n<dimN x. \<forall>c<dimC x. \<forall>s\<le>t. elt x n c s = elt x' n c s)"

text \<open>A layer is causal in the time axis: on inputs that agree up to time t its
  outputs agree up to time t.\<close>

definition causal :: "layer \<Rightarrow> bool" where
  "causal f \<longleftrightarrow>
     (\<forall>x x' y y' t. f x = Inr y \<longrightarrow> f x' = Inr y' \<longrightarrow> agree_upto t x x' \<longrightarrow> agree_upto t y y')"

text \<open>A layer takes cin channels to cout channels and keeps batch size and time
  length: whatever it returns on an input with cin channels has that shape, and on
  such an input with a non-empty time axis it does return.\<close>

definition maps_channels :: "layer \<Rightarrow> nat \<Rightarrow> nat \<Rightarrow> bool" where
  "maps_channels f cin cout \<longleftrightarrow>
     (\<forall>x. dimC x = cin \<longrightarrow>
        (\<forall>y. f x = Inr y \<longrightarrow> shape y = (dimN x, cout, dimT x)) \<and>
        (0 < dimT x \<longrightarrow> (\<exists>y. f x = Inr y)))"

text \<open>What the claims say about the imported classes, as conditions on the
  parameters of the model. Convolutions with padding 'same' and an odd kernel, the
  causal convolutions and the residual blocks keep the time length; causal
  convolutions and causal highway convolutions are causal; weight normalisation
  only re-parametrises the weights of a layer and keeps both properties.\<close>

definition same_padding_keeps_length :: "'p layers \<Rightarrow> bool" where
  "same_padding_keeps_length ll \<longleftrightarrow>
     (\<forall>p i co k a. odd k \<longrightarrow> maps_channels (Conv1d ll p i co k ''same'' a) i co) \<and>
     (\<forall>p c k d. odd k \<longrightarrow> 0 < d \<longrightarrow> maps_channels (HighwayConv1d ll p c c k d ''same'') c c)"

definition projection_keeps_length :: "'p layers \<Rightarrow> bool" where
  "projection_keeps_length ll \<longleftrightarrow> (\<forall>p i co. maps_channels (CustomConv1d ll p i co 1) i co)"

definition residual_keeps_length :: "'p modules \<Rightarrow> bool" where
  "residual_keeps_length mm \<longleftrightarrow>
     (\<forall>p i co k. odd k \<longrightarrow> maps_channels (ResidualBlock1d mm p i co k) i co)"

definition causal_layers :: "'p layers \<Rightarrow> bool" where
  "causal_layers ll \<longleftrightarrow>
     (\<forall>p i co k d a. causal (CausalConv1d ll p i co k d a)) \<and>
     (\<forall>p i co k d. causal (CausalHighwayConv1d ll p i co k d))"

definition norm_keeps_shapes :: "(layer \<Rightarrow> layer) \<Rightarrow> bool" where
  "norm_keeps_shapes weight_norm \<longleftrightarrow>
     (\<forall>f i co. maps_channels f i co \<longrightarrow> maps_channels (weight_norm f) i co)"

definition norm_keeps_causal :: "(layer \<Rightarrow> layer) \<Rightarrow> bool" where
  "norm_keeps_causal weight_norm \<longleftrightarrow> (\<forall>f. causal f \<longrightarrow> causal (weight_norm f))"

text \<open>A call of one of the blocks failed with e: the blocks before it returned and
  the block itself raised e.\<close>

definition block_failure :: "layer list \<Rightarrow> tensor \<Rightarrow> error \<Rightarrow> bool" where
  "block_failure bs x e \<longleftrightarrow>
     (\<exists>i<length bs. \<exists>y. run_blocks (take i bs) x = Inr y \<and> (bs ! i) y = Inl e)"

section \<open>Reference layers\<close>

text \<open>
  Modelled from the spec: layers.py and modules.py are not part of the sources; the
  specification names their classes as convolutions, highway layers, causal
  convolutions and residual blocks. The definitions below are one reading of these
  names on top of the framework's one-dimensional convolution. They serve as the
  concrete layers at which the theorems about networks.py are instantiated; the
  theorems themselves hold for every layer library that meets the conditions above.
\<close>

record conv_params =
  weight :: "nat \<Rightarrow> nat \<Rightarrow> nat \<Rightarrow> real"
  bias :: "nat \<Rightarrow> real"

text \<open>The input with padl zeros in front; positions behind the input read zero too.\<close>

definition padded :: "tensor \<Rightarrow> nat \<Rightarrow> nat \<Rightarrow> nat \<Rightarrow> nat \<Rightarrow> real" where
  "padded x padl n c s = (if padl \<le> s \<and> s - padl < dimT x then elt x n c (s - padl) else 0)"

text \<open>The framework's conv1d with stride 1 on an input padded with padl zeros on the
  left and padr zeros on the right. It raises when the channels of the input are not
  the layer's input channels or the padded input is shorter than the dilated kernel.\<close>

definition conv1d :: "conv_params \<Rightarrow> nat \<Rightarrow> nat \<Rightarrow> nat \<Rightarrow> nat \<Rightarrow> nat \<Rightarrow> nat \<Rightarrow> layer" where
  "conv1d p cin cout k dil padl padr x =
     (if dimC x \<noteq> cin \<or> k = 0 \<or> dil = 0 \<or> dimT x + padl + padr < dil * (k - 1) + 1
      then Inl RuntimeError
      else Inr (mk_tensor (dimN x) cout (dimT x + padl + padr - dil * (k - 1))
             (\<lambda>n co t. bias p co + (\<Sum>c<cin. \<Sum>j<k. weight p co c j * padded x padl n c (t + j * dil)))))"

definition activate :: "(real \<Rightarrow> real) option \<Rightarrow> tensor \<Rightarrow> tensor" where
  "activate a y = (case a of None \<Rightarrow> y | Some g \<Rightarrow> pointwise g y)"

text \<open>The highway combination of a convolution output H with 2 * cout channels and
  the layer input x: the first half of H gates between the second half and x.\<close>

definition highway :: "nat \<Rightarrow> tensor \<Rightarrow> tensor \<Rightarrow> tensor result" where
  "highway cout x H =
     (if dimC x \<noteq> cout \<or> dimT H \<noteq> dimT x then Inl RuntimeError
      else Inr (mk_tensor (dimN x) cout (dimT x)
             (\<lambda>n c t. sigmoid (elt H n c t) * elt H n (cout + c) t
                      + (1 - sigmoid (elt H n c t)) * elt x n c t)))"

definition same_pad :: "string \<Rightarrow> nat \<Rightarrow> nat \<Rightarrow> nat" where
  "same_pad padding k dil = (if padding = ''same'' then (k div 2) * dil else 0)"

definition ref_Conv1d ::
  "conv_params \<Rightarrow> nat \<Rightarrow> nat \<Rightarrow> nat \<Rightarrow> string \<Rightarrow> (real \<Rightarrow> real) option \<Rightarrow> layer" where
  "ref_Conv1d p cin cout k padding a x =
     rbind (conv1d p cin cout k 1 (same_pad padding k 1) (same_pad padding k 1) x)
       (\<lambda>y. Inr (activate a y))"

definition ref_HighwayConv1d ::
  "conv_params \<Rightarrow> nat \<Rightarrow> nat \<Rightarrow> nat \<Rightarrow> nat \<Rightarrow> string \<Rightarrow> layer" where
  "ref_HighwayConv1d p cin cout k dil padding x =
     rbind (conv1d p cin (2 * cout) k dil (same_pad padding k dil) (same_pad padding k dil) x)
       (highway cout x)"

definition ref_CausalConv1d ::
  "conv_params \<Rightarrow> nat \<Rightarrow> nat \<Rightarrow> nat \<Rightarrow> nat option \<Rightarrow> (real \<Rightarrow> real) option \<Rightarrow> layer" where
  "ref_CausalConv1d p cin cout k dilation a x =
     (let dil = (case dilation of None \<Rightarrow> 1 | Some d \<Rightarrow> d) in
      rbind (conv1d p cin cout k dil ((k - 1) * dil) 0 x) (\<lambda>y. Inr (activate a y)))"

definition ref_CausalHighwayConv1d ::
  "conv_params \<Rightarrow> nat \<Rightarrow> nat \<Rightarrow> nat \<Rightarrow> nat \<Rightarrow> layer" where
  "ref_CausalHighwayConv1d p cin cout k dil x =
     rbind (conv1d p cin (2 * cout) k dil ((k - 1) * dil) 0 x) (highway cout x)"

definition ref_layers :: "conv_params layers" where
  "ref_layers =
     \<lparr>Conv1d = ref_Conv1d, HighwayConv1d = ref_HighwayConv1d,
      CausalConv1d = ref_CausalConv1d, CausalHighwayConv1d = ref_CausalHighwayConv1d,
      CustomConv1d = (\<lambda>p cin cout k. ref_Conv1d p cin cout k ''same'' None)\<rparr>"

text \<open>A residual block: a convolution with padding 'same' and relu, added to the
  input when the channel counts allow it.\<close>

definition ref_ResidualBlock1d :: "conv_params \<Rightarrow> nat \<Rightarrow> nat \<Rightarrow> nat \<Rightarrow> layer" where
  "ref_ResidualBlock1d p cin cout ksize x =
     rbind (conv1d p cin cout ksize 1 (ksize div 2) (ksize div 2) x)
       (\<lambda>y. Inr (mk_tensor (dimN y) (dimC y) (dimT y)
                   (\<lambda>n c t. relu (elt y n c t) + (if cin = cout then elt x n c t else 0))))"

definition ref_modules :: "conv_params modules" where
  "ref_modules = \<lparr>ResidualBlock1d = ref_ResidualBlock1d\<rparr>"

text \<open>Weight normalisation as it is right after construction: the layer computes
  what it computed before.\<close>

definition ref_norm :: "layer \<Rightarrow> layer" where
  "ref_norm f = f"

text \<open>Sample parameters and inputs.\<close>

definition ones_params :: "nat \<Rightarrow> conv_params" where
  "ones_params i = \<lparr>weight = (\<lambda>co c j. 1), bias = (\<lambda>co. 0)\<rparr>"

definition ramp :: "nat \<Rightarrow> nat \<Rightarrow> nat \<Rightarrow> tensor" where
  "ramp N C T = mk_tensor N C T (\<lambda>n c t. real (n + c + t))"

definition step_input :: tensor where
  "step_input = mk_tensor 1 1 3 (\<lambda>n c t. if t = 0 then 0 else 7)"

text \<open>Sample scalar routines: the real functions themselves.\<close>

definition real_numerics :: numerics where
  "real_numerics =
     \<lparr>np_sqrt = (\<lambda>d. sqrt (real d)),
      true_divide = (\<lambda>v r. v / r),
      softmax_column = (\<lambda>col i. exp (col ! i) / sum_list (map exp col))\<rparr>"

section \<open>Basic facts about tensors\<close>

lemma dims_mk_tensor [simp]:
  "dimN (mk_tensor N C T f) = N"
  "dimC (mk_tensor N C T f) = C"
  "dimT (mk_tensor N C T f) = T"
  by (simp_all add: mk_tensor_def)

lemma elt_mk_tensor [simp]:
  "n < N \<Longrightarrow> c < C \<Longrightarrow> t < T \<Longrightarrow> elt (mk_tensor N C T f) n c t = f n c t"
  by (simp add: mk_tensor_def)

lemma rbind_Inr_iff: "rbind r f = Inr y \<longleftrightarrow> (\<exists>v. r = Inr v \<and> f v = Inr y)"
  by (cases r) (simp_all add: rbind_def)

lemma rbind_Inl_iff:
  "rbind r f = Inl e \<longleftrightarrow> r = Inl e \<or> (\<exists>v. r = Inr v \<and> f v = Inl e)"
  by (cases r) (simp_all add: rbind_def)

lemma bmm_Inr_iff:
  "bmm a b = Inr y \<longleftrightarrow>
     dimN a = dimN b \<and> dimT a = dimC b \<and>
     y = mk_tensor (dimN a) (dimC a) (dimT b) (\<lambda>n i j. \<Sum>k<dimT a. elt a n i k * elt b n k j)"
  by (auto simp: bmm_def)

section \<open>The attention\<close>

lemma dims_pointwise [simp]:
  "dimN (pointwise g x) = dimN x" "dimC (pointwise g x) = dimC x" "dimT (pointwise g x) = dimT x"
  by (simp_all add: pointwise_def)

lemma elt_pointwise [simp]:
  "n < dimN x \<Longrightarrow> c < dimC x \<Longrightarrow> t < dimT x \<Longrightarrow> elt (pointwise g x) n c t = g (elt x n c t)"
  by (simp add: pointwise_def)

lemma shape_pointwise [simp]: "shape (pointwise g x) = shape x"
  by (simp add: shape_def)

lemma dims_div_scalar [simp]:
  "dimN (div_scalar num x r) = dimN x" "dimC (div_scalar num x r) = dimC x"
  "dimT (div_scalar num x r) = dimT x"
  by (simp_all add: div_scalar_def)

lemma dims_softmax_dim1 [simp]:
  "dimN (softmax_dim1 num x) = dimN x" "dimC (softmax_dim1 num x) = dimC x"
  "dimT (softmax_dim1 num x) = dimT x"
  by (simp_all add: softmax_dim1_def)

lemma DotProductAttention_forward_Inr:
  "DotProductAttention_forward num self Q K V = Inr (R, A) \<longleftrightarrow>
     (\<exists>q k v. linear_q self Q = Inr q \<and> linear_k self K = Inr k \<and> linear_v self V = Inr v \<and>
        dimN k = dimN q \<and> dimC k = dimC q \<and>
        A = softmax_dim1 num (div_scalar num
              (mk_tensor (dimN k) (dimT k) (dimT q)
                 (\<lambda>n i j. \<Sum>c<dimC k. elt (transpose12 (torch_tanh k)) n i c * elt (torch_tanh q) n c j))
              (np_sqrt num (d_k self))) \<and>
        dimN v = dimN k \<and> dimT v = dimT k \<and>
        R = mk_tensor (dimN v) (dimC v) (dimT q)
              (\<lambda>n c j. \<Sum>i<dimT v. elt (torch_tanh v) n c i * elt A n i j))"
  by (auto simp: DotProductAttention_forward_def rbind_Inr_iff Let_def bmm_Inr_iff
      transpose12_def torch_tanh_def pointwise_def)

section \<open>Shapes\<close>

lemma maps_channelsI:
  assumes "\<And>x y. dimC x = cin \<Longrightarrow> f x = Inr y \<Longrightarrow> shape y = (dimN x, cout, dimT x)"
    and "\<And>x. dimC x = cin \<Longrightarrow> 0 < dimT x \<Longrightarrow> \<exists>y. f x = Inr y"
  shows "maps_channels f cin cout"
  using assms unfolding maps_channels_def by blast

lemma maps_channels_shape:
  "maps_channels f cin cout \<Longrightarrow> dimC x = cin \<Longrightarrow> f x = Inr y \<Longrightarrow> shape y = (dimN x, cout, dimT x)"
  unfolding maps_channels_def by blast

lemma maps_channels_returns:
  "maps_channels f cin cout \<Longrightarrow> dimC x = cin \<Longrightarrow> 0 < dimT x \<Longrightarrow> \<exists>y. f x = Inr y"
  unfolding maps_channels_def by blast

lemma shape_eq_iff: "shape x = (N, C, T) \<longleftrightarrow> dimN x = N \<and> dimC x = C \<and> dimT x = T"
  by (simp add: shape_def)

lemma conv1d_Inr_iff:
  "conv1d p cin cout k dil padl padr x = Inr y \<longleftrightarrow>
     dimC x = cin \<and> 0 < k \<and> 0 < dil \<and> dil * (k - 1) + 1 \<le> dimT x + padl + padr \<and>
     y = mk_tensor (dimN x) cout (dimT x + padl + padr - dil * (k - 1))
           (\<lambda>n co t. bias p co + (\<Sum>c<cin. \<Sum>j<k. weight p co c j * padded x padl n c (t + j * dil)))"
  by (auto simp: conv1d_def)

lemma odd_kernel_same_pad: "odd (k::nat) \<Longrightarrow> (k div 2) * dil + (k div 2) * dil = dil * (k - 1)"
  by (auto elim!: oddE simp: algebra_simps)

lemma dims_activate [simp]:
  "dimN (activate a y) = dimN y" "dimC (activate a y) = dimC y" "dimT (activate a y) = dimT y"
  by (cases a; simp add: activate_def)+

lemma conv1d_same_maps_channels:
  assumes "odd k" "0 < dil"
  shows "maps_channels (conv1d p cin cout k dil ((k div 2) * dil) ((k div 2) * dil)) cin cout"
proof (rule maps_channelsI)
  fix x :: tensor and y assume "dimC x = cin" "conv1d p cin cout k dil ((k div 2) * dil) ((k div 2) * dil) x = Inr y"
  then show "shape y = (dimN x, cout, dimT x)"
    using odd_kernel_same_pad [OF assms(1), of dil]
    by (simp add: conv1d_Inr_iff shape_eq_iff add.assoc)
next
  fix x :: tensor assume "dimC x = cin" "0 < dimT x"
  then show "\<exists>y. conv1d p cin cout k dil ((k div 2) * dil) ((k div 2) * dil) x = Inr y"
    using odd_kernel_same_pad [OF assms(1), of dil] assms odd_pos [OF assms(1)]
    by (simp add: conv1d_Inr_iff add.assoc)
qed

lemma conv1d_causal_maps_channels:
  assumes "0 < k" "0 < dil"
  shows "maps_channels (conv1d p cin cout k dil ((k - 1) * dil) 0) cin cout"
  using assms by (intro maps_channelsI) (auto simp: conv1d_Inr_iff shape_eq_iff mult.commute)

lemma maps_channels_activate:
  assumes "maps_channels f cin cout"
  shows "maps_channels (\<lambda>x. rbind (f x) (\<lambda>y. Inr (activate a y))) cin cout"
proof (rule maps_channelsI)
  fix x :: tensor and y
  assume "dimC x = cin" "rbind (f x) (\<lambda>y. Inr (activate a y)) = Inr y"
  then show "shape y = (dimN x, cout, dimT x)"
    using maps_channels_shape [OF assms, of x]
    by (auto simp: rbind_Inr_iff shape_eq_iff)
next
  fix x :: tensor
  assume "dimC x = cin" "0 < dimT x"
  then show "\<exists>y. rbind (f x) (\<lambda>y. Inr (activate a y)) = Inr y"
    using maps_channels_returns [OF assms, of x] by (auto simp: rbind_Inr_iff)
qed

lemma highway_Inr_iff:
  "highway cout x H = Inr y \<longleftrightarrow>
     dimC x = cout \<and> dimT H = dimT x \<and>
     y = mk_tensor (dimN x) cout (dimT x)
           (\<lambda>n c t. sigmoid (elt H n c t) * elt H n (cout + c) t
                    + (1 - sigmoid (elt H n c t)) * elt x n c t)"
  by (auto simp: highway_def)

lemma maps_channels_highway:
  assumes "maps_channels f c (2 * c)"
  shows "maps_channels (\<lambda>x. rbind (f x) (highway c x)) c c"
proof (rule maps_channelsI)
  fix x :: tensor and y
  assume "dimC x = c" "rbind (f x) (highway c x) = Inr y"
  then show "shape y = (dimN x, c, dimT x)"
    by (auto simp: rbind_Inr_iff highway_Inr_iff shape_eq_iff)
next
  fix x :: tensor
  assume x: "dimC x = c" "0 < dimT x"
  then obtain H where H: "f x = Inr H"
    using maps_channels_returns [OF assms, of x] by blast
  have "dimT H = dimT x"
    using maps_channels_shape [OF assms x(1) H] by (simp add: shape_eq_iff)
  then show "\<exists>y. rbind (f x) (highway c x) = Inr y"
    using H x by (simp add: rbind_Inr_iff highway_Inr_iff)
qed

lemma ref_Conv1d_maps_channels:
  "odd k \<Longrightarrow> maps_channels (ref_Conv1d p i co k ''same'' a) i co"
  unfolding ref_Conv1d_def same_pad_def
  using maps_channels_activate [OF conv1d_same_maps_channels [of k 1 p i co], of a] by simp

lemma ref_HighwayConv1d_maps_channels:
  "odd k \<Longrightarrow> 0 < d \<Longrightarrow> maps_channels (ref_HighwayConv1d p c c k d ''same'') c c"
  unfolding ref_HighwayConv1d_def same_pad_def
  using maps_channels_highway [OF conv1d_same_maps_channels [of k d p c "2 * c"]] by simp

lemma ref_ResidualBlock1d_maps_channels:
  assumes "odd k"
  shows "maps_channels (ref_ResidualBlock1d p i co k) i co"
proof -
  have conv: "maps_channels (conv1d p i co k 1 (k div 2) (k div 2)) i co"
    using conv1d_same_maps_channels [OF assms, of 1 p i co] by simp
  show ?thesis
  proof (rule maps_channelsI)
    fix x :: tensor and y
    assume "dimC x = i" "ref_ResidualBlock1d p i co k x = Inr y"
    then show "shape y = (dimN x, co, dimT x)"
      using maps_channels_shape [OF conv, of x]
      by (auto simp: ref_ResidualBlock1d_def rbind_Inr_iff shape_eq_iff)
  next
    fix x :: tensor
    assume "dimC x = i" "0 < dimT x"
    then show "\<exists>y. ref_ResidualBlock1d p i co k x = Inr y"
      using maps_channels_returns [OF conv, of x]
      by (auto simp: ref_ResidualBlock1d_def rbind_Inr_iff)
  qed
qed

lemma ref_layers_same_padding: "same_padding_keeps_length ref_layers"
  by (simp add: same_padding_keeps_length_def ref_layers_def
      ref_Conv1d_maps_channels ref_HighwayConv1d_maps_channels)

lemma ref_layers_projection: "projection_keeps_length ref_layers"
  by (simp add: projection_keeps_length_def ref_layers_def ref_Conv1d_maps_channels)

lemma ref_modules_residual: "residual_keeps_length ref_modules"
  by (simp add: residual_keeps_length_def ref_modules_def ref_ResidualBlock1d_maps_channels)

lemma ref_norm_keeps_shapes: "norm_keeps_shapes ref_norm"
  by (simp add: norm_keeps_shapes_def ref_norm_def)

lemma ref_norm_keeps_causal: "norm_keeps_causal ref_norm"
  by (simp add: norm_keeps_causal_def ref_norm_def)

lemma shape_ramp [simp]: "shape (ramp N C T) = (N, C, T)"
  by (simp add: ramp_def shape_def)

lemma dims_torch_tanh [simp]:
  "dimN (torch_tanh x) = dimN x" "dimC (torch_tanh x) = dimC x" "dimT (torch_tanh x) = dimT x"
  by (simp_all add: torch_tanh_def)

text \<open>Shapes of the attention for projections that keep the shape of their input.\<close>

lemma DotProductAttention_forward_shapes:
  assumes "maps_channels (linear_q self) C C" "maps_channels (linear_k self) C C"
    "maps_channels (linear_v self) C C"
    and "shape Q = (N, C, Ty)" "shape K = (N, C, Tx)" "shape V = (N, C, Tx)"
  shows "DotProductAttention_forward num self Q K V = Inr (R, A) \<Longrightarrow>
           shape R = (N, C, Ty) \<and> shape A = (N, Tx, Ty)"
    and "0 < Tx \<Longrightarrow> 0 < Ty \<Longrightarrow> \<exists>R A. DotProductAttention_forward num self Q K V = Inr (R, A)"
proof -
  assume "DotProductAttention_forward num self Q K V = Inr (R, A)"
  then obtain q k v where
    q: "linear_q self Q = Inr q" and k: "linear_k self K = Inr k" and v: "linear_v self V = Inr v"
    and A: "dimN A = dimN k" "dimC A = dimT k" "dimT A = dimT q"
    and R: "dimN R = dimN v" "dimC R = dimC v" "dimT R = dimT q"
    unfolding DotProductAttention_forward_Inr by auto
  show "shape R = (N, C, Ty) \<and> shape A = (N, Tx, Ty)"
    using maps_channels_shape [OF assms(1) _ q] maps_channels_shape [OF assms(2) _ k]
      maps_channels_shape [OF assms(3) _ v] assms(4-6) A R
    by (simp add: shape_eq_iff)
next
  assume "0 < Tx" "0 < Ty"
  then obtain q k v where
    q: "linear_q self Q = Inr q" and k: "linear_k self K = Inr k" and v: "linear_v self V = Inr v"
    using maps_channels_returns [OF assms(1), of Q] maps_channels_returns [OF assms(2), of K]
      maps_channels_returns [OF assms(3), of V] assms(4-6)
    by (auto simp: shape_eq_iff)
  have "shape q = (N, C, Ty)" "shape k = (N, C, Tx)" "shape v = (N, C, Tx)"
    using maps_channels_shape [OF assms(1) _ q] maps_channels_shape [OF assms(2) _ k]
      maps_channels_shape [OF assms(3) _ v] assms(4-6)
    by (simp_all add: shape_eq_iff)
  then show "\<exists>R A. DotProductAttention_forward num self Q K V = Inr (R, A)"
    using q k v
    by (simp add: DotProductAttention_forward_def rbind_def Let_def bmm_def shape_eq_iff
        transpose12_def)
qed

lemma DotProductAttention_init_projections:
  assumes "projection_keeps_length ll"
  shows "maps_channels (linear_q (DotProductAttention_init ll \<theta> d)) d d"
    "maps_channels (linear_k (DotProductAttention_init ll \<theta> d)) d d"
    "maps_channels (linear_v (DotProductAttention_init ll \<theta> d)) d d"
  using assms by (simp_all add: projection_keeps_length_def DotProductAttention_init_def)

section \<open>Running a list of blocks; the text encoder\<close>

lemma maps_channels_compose:
  assumes f: "maps_channels f a b" and g: "maps_channels g b c"
  shows "maps_channels (\<lambda>x. rbind (f x) g) a c"
proof (rule maps_channelsI)
  fix x :: tensor and z
  assume x: "dimC x = a" and "rbind (f x) g = Inr z"
  then obtain y where y: "f x = Inr y" and z: "g y = Inr z"
    by (auto simp: rbind_Inr_iff)
  have sy: "shape y = (dimN x, b, dimT x)" by (rule maps_channels_shape [OF f x y])
  then have "dimC y = b" by (simp add: shape_eq_iff)
  from maps_channels_shape [OF g this z] sy
  show "shape z = (dimN x, c, dimT x)" by (simp add: shape_eq_iff)
next
  fix x :: tensor
  assume x: "dimC x = a" and T: "0 < dimT x"
  obtain y where y: "f x = Inr y" using maps_channels_returns [OF f x T] by blast
  have sy: "shape y = (dimN x, b, dimT x)" by (rule maps_channels_shape [OF f x y])
  then have "dimC y = b" "0 < dimT y" using T by (simp_all add: shape_eq_iff)
  from maps_channels_returns [OF g this] obtain z where "g y = Inr z" by blast
  then show "\<exists>z. rbind (f x) g = Inr z" using y by (simp add: rbind_Inr_iff)
qed

lemma maps_channels_Inr: "maps_channels Inr c c"
  by (rule maps_channelsI) (auto simp: shape_def)

lemma run_blocks_maps_channels:
  "(\<And>b. b \<in> set bs \<Longrightarrow> maps_channels b c c) \<Longrightarrow> maps_channels (run_blocks bs) c c"
proof (induction bs)
  case Nil
  have "run_blocks [] = Inr" by (rule ext) simp
  then show ?case by (simp add: maps_channels_Inr)
next
  case (Cons b bs)
  have "run_blocks (b # bs) = (\<lambda>x. rbind (b x) (run_blocks bs))" by (rule ext) simp
  moreover have "maps_channels b c c" "maps_channels (run_blocks bs) c c"
    using Cons by simp_all
  ultimately show ?case by (simp add: maps_channels_compose)
qed

lemma run_blocks_Cons_maps_channels:
  assumes "maps_channels b a c" and "\<And>b'. b' \<in> set bs \<Longrightarrow> maps_channels b' c c"
  shows "maps_channels (run_blocks (b # bs)) a c"
proof -
  have "run_blocks (b # bs) = (\<lambda>x. rbind (b x) (run_blocks bs))" by (rule ext) simp
  then show ?thesis
    using maps_channels_compose [OF assms(1) run_blocks_maps_channels [OF assms(2)]] by simp
qed

lemma TextEncoder_init_maps_channels:
  assumes ll: "same_padding_keeps_length ll" and wn: "norm_keeps_shapes weight_norm"
  shows "maps_channels (run_blocks (TextEncoder.hc_blocks
           (TextEncoder_init weight_norm ll \<theta> d_in d_out d_hidden))) d_in d_hidden"
proof -
  have conv: "maps_channels (weight_norm (Conv1d ll p i co k ''same'' a)) i co"
    if "odd k" for p i co k a
    using ll wn that unfolding same_padding_keeps_length_def norm_keeps_shapes_def by simp
  have hw: "maps_channels (weight_norm (HighwayConv1d ll p c c k d ''same'')) c c"
    if "odd k" "0 < d" for p c k d
    using ll wn that unfolding same_padding_keeps_length_def norm_keeps_shapes_def by simp
  show ?thesis
    unfolding TextEncoder_init_def TextEncoder.make_def TextEncoder.simps append_Cons append_Nil
    by (rule run_blocks_Cons_maps_channels) (auto simp: conv hw)
qed

lemma chunk_dim1_even:
  assumes "even (dimC y)"
  shows "chunk_dim1 y 2 = [narrow_dim1 y 0 (dimC y div 2), narrow_dim1 y (dimC y div 2) (dimC y div 2)]"
proof -
  from assms obtain m where m: "dimC y = 2 * m" by (auto elim: evenE)
  show ?thesis
  proof (cases "m = 0")
    case True
    then show ?thesis using m by (simp add: chunk_dim1_def eval_nat_numeral)
  next
    case False
    have "(2 * m + m - 1) div m = 2"
    proof -
      have "2 * m + m - 1 = m * 2 + (m - 1)" using False by simp
      moreover have "(m * 2 + (m - 1)) div m = 2 + (m - 1) div m"
        using False by (rule div_mult_self4)
      ultimately show ?thesis using False by simp
    qed
    moreover have "[0..<2] = [0, Suc 0]" by (simp add: eval_nat_numeral)
    ultimately show ?thesis
      using False m by (simp add: chunk_dim1_def Let_def)
  qed
qed

lemma dims_narrow_dim1 [simp]:
  "dimN (narrow_dim1 x s l) = dimN x" "dimC (narrow_dim1 x s l) = l" "dimT (narrow_dim1 x s l) = dimT x"
  by (simp_all add: narrow_dim1_def)

lemma elt_narrow_dim1 [simp]:
  "n < dimN x \<Longrightarrow> c < l \<Longrightarrow> t < dimT x \<Longrightarrow> elt (narrow_dim1 x s l) n c t = elt x n (s + c) t"
  by (simp add: narrow_dim1_def)

lemma unpack2_Inr_iff: "unpack2 xs = Inr (a, b) \<longleftrightarrow> xs = [a, b]"
  by (simp add: unpack2_def split: list.splits)

lemma unpack2_Inl_iff: "unpack2 xs = Inl e \<longleftrightarrow> length xs \<noteq> 2 \<and> e = ValueError"
  by (auto simp: unpack2_def split: list.splits)

lemma TextEncoder_forward_Inr:
  "TextEncoder_forward self L = Inr (K, V) \<longleftrightarrow>
     (\<exists>y. run_blocks (TextEncoder.hc_blocks self) L = Inr y \<and> chunk_dim1 y 2 = [K, V])"
  by (simp add: TextEncoder_forward_def rbind_Inr_iff unpack2_Inr_iff)

section \<open>Shapes of the attention\<close>

text \<open>
  Claim C6. Shapes of DotProductAttention.forward. For Q of shape (N, C, Ty) and K, V
  of shape (N, C, Tx) with C = d_hidden, whatever the forward returns is a pair of R
  of shape (N, C, Ty) and A of shape (N, Tx, Ty), and it does return when both time
  axes are non-empty. The projections are layers that keep length and channels; the
  shapes do not depend on the numbers the scalar routines of the softmax, the
  division and the square root return.
\<close>

theorem attention_shapes:
  assumes "projection_keeps_length ll"
    and "shape Q = (N, d_hidden, Ty)" and "shape K = (N, d_hidden, Tx)"
    and "shape V = (N, d_hidden, Tx)"
  shows "(\<forall>R A. DotProductAttention_forward num (DotProductAttention_init ll \<theta> d_hidden) Q K V = Inr (R, A)
            \<longrightarrow> shape R = (N, d_hidden, Ty) \<and> shape A = (N, Tx, Ty)) \<and>
         (0 < Tx \<longrightarrow> 0 < Ty \<longrightarrow>
            (\<exists>R A. DotProductAttention_forward num (DotProductAttention_init ll \<theta> d_hidden) Q K V = Inr (R, A)))"
  using DotProductAttention_forward_shapes [OF DotProductAttention_init_projections [OF assms(1)] assms(2-4)]
  by blast

theorem attention_shapes_witness:
  "\<exists>R A. DotProductAttention_forward real_numerics (DotProductAttention_init ref_layers ones_params 2)
            (ramp 1 2 3) (ramp 1 2 2) (ramp 1 2 2) = Inr (R, A) \<and>
          shape R = (1, 2, 3) \<and> shape A = (1, 2, 3)"
proof -
  have Q: "shape (ramp 1 2 3) = (1, 2, 3)" and K: "shape (ramp 1 2 2) = (1, 2, 2)"
    by (rule shape_ramp)+
  have pos: "(0::nat) < 2" "(0::nat) < 3" by simp_all
  from attention_shapes [OF ref_layers_projection Q K K, of real_numerics ones_params] pos
  show ?thesis by blast
qed

section \<open>The text encoder returns two halves\<close>

text \<open>
  Claim C8. For an even hidden width and an input L of shape (N, d_in, Tx),
  TextEncoder.forward returns the two halves of the output y of its last block along
  the channel axis: K and V both have shape (N, d_hidden div 2, Tx), K holds the first
  d_hidden div 2 channels of y and V the remaining ones. Whatever the forward returns
  is such a pair, and it does return when the text is not empty. The convolutions with
  padding 'same' are layers that keep the length and produce the channels they are
  built for, and weight normalisation keeps that.
\<close>

theorem TextEncoder_returns_halves:
  assumes "same_padding_keeps_length ll" and "norm_keeps_shapes weight_norm"
    and "even d_hidden" and "shape L = (N, d_in, Tx)"
  shows "(\<forall>K V. TextEncoder_forward (TextEncoder_init weight_norm ll \<theta> d_in d_out d_hidden) L = Inr (K, V) \<longrightarrow>
            shape K = (N, d_hidden div 2, Tx) \<and> shape V = (N, d_hidden div 2, Tx) \<and>
            (\<exists>y. run_blocks (TextEncoder.hc_blocks (TextEncoder_init weight_norm ll \<theta> d_in d_out d_hidden)) L = Inr y \<and>
                 shape y = (N, d_hidden, Tx) \<and>
                 (\<forall>n<N. \<forall>c<d_hidden div 2. \<forall>t<Tx.
                    elt K n c t = elt y n c t \<and> elt V n c t = elt y n (d_hidden div 2 + c) t))) \<and>
         (0 < Tx \<longrightarrow>
            (\<exists>K V. TextEncoder_forward (TextEncoder_init weight_norm ll \<theta> d_in d_out d_hidden) L = Inr (K, V)))"
proof -
  let ?m = "TextEncoder_init weight_norm ll \<theta> d_in d_out d_hidden"
  note mc = TextEncoder_init_maps_channels [OF assms(1,2), of \<theta> d_in d_out d_hidden]
  have L: "dimN L = N" "dimC L = d_in" "dimT L = Tx"
    using assms(4) by (simp_all add: shape_eq_iff)
  have halves: "chunk_dim1 y 2 = [narrow_dim1 y 0 (d_hidden div 2), narrow_dim1 y (d_hidden div 2) (d_hidden div 2)]
      \<and> shape y = (N, d_hidden, Tx)"
    if "run_blocks (TextEncoder.hc_blocks ?m) L = Inr y" for y
  proof -
    have sy: "shape y = (N, d_hidden, Tx)"
      using maps_channels_shape [OF mc L(2) that] L by simp
    then have "dimC y = d_hidden" by (simp add: shape_eq_iff)
    then show ?thesis using chunk_dim1_even [of y] assms(3) sy by simp
  qed
  have part1: "shape K = (N, d_hidden div 2, Tx) \<and> shape V = (N, d_hidden div 2, Tx) \<and>
            (\<exists>y. run_blocks (TextEncoder.hc_blocks ?m) L = Inr y \<and> shape y = (N, d_hidden, Tx) \<and>
                 (\<forall>n<N. \<forall>c<d_hidden div 2. \<forall>t<Tx.
                    elt K n c t = elt y n c t \<and> elt V n c t = elt y n (d_hidden div 2 + c) t))"
    if "TextEncoder_forward ?m L = Inr (K, V)" for K V
  proof -
    from that obtain y where y: "run_blocks (TextEncoder.hc_blocks ?m) L = Inr y"
      and KV: "chunk_dim1 y 2 = [K, V]"
      unfolding TextEncoder_forward_Inr by blast
    from halves [OF y] KV have K: "K = narrow_dim1 y 0 (d_hidden div 2)"
      and V: "V = narrow_dim1 y (d_hidden div 2) (d_hidden div 2)"
      and sy: "shape y = (N, d_hidden, Tx)" by simp_all
    have dy: "dimN y = N" "dimC y = d_hidden" "dimT y = Tx"
      using sy by (simp_all add: shape_eq_iff)
    show ?thesis
      using y sy by (auto simp: K V shape_eq_iff dy)
  qed
  have part2: "\<exists>K V. TextEncoder_forward ?m L = Inr (K, V)" if pos: "0 < Tx"
  proof -
    obtain y where y: "run_blocks (TextEncoder.hc_blocks ?m) L = Inr y"
      using maps_channels_returns [OF mc L(2)] pos L(3) by auto
    show ?thesis
      using halves [OF y] y unfolding TextEncoder_forward_Inr by blast
  qed
  show ?thesis using part1 part2 by blast
qed

theorem TextEncoder_returns_halves_witness:
  "\<exists>K V y. TextEncoder_forward (TextEncoder_init ref_norm ref_layers ones_params 1 1 2) (ramp 1 1 3) = Inr (K, V) \<and>
      shape K = (1, 1, 3) \<and> shape V = (1, 1, 3) \<and>
      run_blocks (TextEncoder.hc_blocks (TextEncoder_init ref_norm ref_layers ones_params 1 1 2)) (ramp 1 1 3) = Inr y \<and>
      elt K 0 0 2 = elt y 0 0 2 \<and> elt V 0 0 2 = elt y 0 1 2"
proof -
  let ?m = "TextEncoder_init ref_norm ref_layers ones_params 1 1 2"
  have L: "shape (ramp 1 1 3) = (1, 1, 3)" by (rule shape_ramp)
  note inst = TextEncoder_returns_halves [OF ref_layers_same_padding ref_norm_keeps_shapes _ L,
      of 2 ones_params 1, simplified]
  from inst obtain K V where fw: "TextEncoder_forward ?m (ramp 1 1 3) = Inr (K, V)"
    by auto
  from inst fw obtain y where "shape K = (1, 1, 3)" "shape V = (1, 1, 3)"
    "run_blocks (TextEncoder.hc_blocks ?m) (ramp 1 1 3) = Inr y"
    "\<forall>t<3. elt K 0 0 t = elt y 0 0 t \<and> elt V 0 0 t = elt y 0 (Suc 0) t"
    by auto
  then show ?thesis using fw by auto
qed

section \<open>The post-processing network\<close>

lemma Upsample_nearest_Inr_iff:
  "Upsample_nearest s x = Inr y \<longleftrightarrow>
     0 < dimC x \<and> 0 < dimT x \<and> 0 < s \<and>
     y = mk_tensor (dimN x) (dimC x) (dimT x * s) (\<lambda>n c t. elt x n c (min (t div s) (dimT x - 1)))"
  by (auto simp: Upsample_nearest_def)

lemma dims_torch_sigmoid [simp]:
  "dimN (torch_sigmoid x) = dimN x" "dimC (torch_sigmoid x) = dimC x" "dimT (torch_sigmoid x) = dimT x"
  by (simp_all add: torch_sigmoid_def)

lemma PostNet_forward_Inr:
  "PostNet_forward (PostNet_init mm \<theta> d_in d_out d_hidden) x = Inr y \<longleftrightarrow>
     (\<exists>y1 y2 y3 y4 y5.
        Upsample_nearest 2 x = Inr y1 \<and> ResidualBlock1d mm (\<theta> 1) d_in d_hidden 5 y1 = Inr y2 \<and>
        Upsample_nearest 2 y2 = Inr y3 \<and> ResidualBlock1d mm (\<theta> 3) d_hidden d_hidden 5 y3 = Inr y4 \<and>
        ResidualBlock1d mm (\<theta> 4) d_hidden d_out 5 y4 = Inr y5 \<and> y = torch_sigmoid y5)"
  by (auto simp: PostNet_forward_def PostNet_init_def Sequential_def rbind_Inr_iff)

lemma PostNet_forward_shape:
  assumes "residual_keeps_length mm" and "shape x = (N, d_in, T)"
    and fw: "PostNet_forward (PostNet_init mm \<theta> d_in d_out d_hidden) x = Inr y"
  shows "shape y = (N, d_out, 4 * T)"
proof -
  have rb: "maps_channels (ResidualBlock1d mm p i co 5) i co" for p i co
    using assms(1) unfolding residual_keeps_length_def by simp
  have x: "dimN x = N" "dimC x = d_in" "dimT x = T"
    using assms(2) by (simp_all add: shape_eq_iff)
  from fw obtain y1 y2 y3 y4 y5 where
    1: "Upsample_nearest 2 x = Inr y1" and 2: "ResidualBlock1d mm (\<theta> 1) d_in d_hidden 5 y1 = Inr y2"
    and 3: "Upsample_nearest 2 y2 = Inr y3" and 4: "ResidualBlock1d mm (\<theta> 3) d_hidden d_hidden 5 y3 = Inr y4"
    and 5: "ResidualBlock1d mm (\<theta> 4) d_hidden d_out 5 y4 = Inr y5" and y: "y = torch_sigmoid y5"
    unfolding PostNet_forward_Inr by blast
  have s1: "shape y1 = (N, d_in, T * 2)"
    using 1 x by (simp add: Upsample_nearest_Inr_iff shape_eq_iff)
  have s2: "shape y2 = (N, d_hidden, T * 2)"
    using maps_channels_shape [OF rb _ 2] s1 by (simp add: shape_eq_iff)
  have s3: "shape y3 = (N, d_hidden, T * 2 * 2)"
    using 3 s2 by (simp add: Upsample_nearest_Inr_iff shape_eq_iff)
  have s4: "shape y4 = (N, d_hidden, T * 2 * 2)"
    using maps_channels_shape [OF rb _ 4] s3 by (simp add: shape_eq_iff)
  have s5: "shape y5 = (N, d_out, T * 2 * 2)"
    using maps_channels_shape [OF rb _ 5] s4 by (simp add: shape_eq_iff)
  then show ?thesis by (simp add: y shape_eq_iff)
qed

lemma PostNet_forward_returns:
  assumes "residual_keeps_length mm" and "shape x = (N, d_in, T)"
    and pos: "0 < T" "0 < d_in" "0 < d_hidden"
  shows "\<exists>y. PostNet_forward (PostNet_init mm \<theta> d_in d_out d_hidden) x = Inr y"
proof -
  have rb: "maps_channels (ResidualBlock1d mm p i co 5) i co" for p i co
    using assms(1) unfolding residual_keeps_length_def by simp
  have x: "dimN x = N" "dimC x = d_in" "dimT x = T"
    using assms(2) by (simp_all add: shape_eq_iff)
  obtain y1 where 1: "Upsample_nearest 2 x = Inr y1"
    using pos x by (simp add: Upsample_nearest_Inr_iff)
  have s1: "dimN y1 = N" "dimC y1 = d_in" "dimT y1 = T * 2"
    using 1 x by (simp_all add: Upsample_nearest_Inr_iff)
  obtain y2 where 2: "ResidualBlock1d mm (\<theta> 1) d_in d_hidden 5 y1 = Inr y2"
    using maps_channels_returns [OF rb, of y1 d_in] s1 pos by auto
  have s2: "dimN y2 = N" "dimC y2 = d_hidden" "dimT y2 = T * 2"
    using maps_channels_shape [OF rb _ 2] s1 by (simp_all add: shape_eq_iff)
  obtain y3 where 3: "Upsample_nearest 2 y2 = Inr y3"
    using pos s2 by (simp add: Upsample_nearest_Inr_iff)
  have s3: "dimN y3 = N" "dimC y3 = d_hidden" "dimT y3 = T * 2 * 2"
    using 3 s2 by (simp_all add: Upsample_nearest_Inr_iff)
  obtain y4 where 4: "ResidualBlock1d mm (\<theta> 3) d_hidden d_hidden 5 y3 = Inr y4"
    using maps_channels_returns [OF rb, of y3 d_hidden] s3 pos by auto
  have s4: "dimN y4 = N" "dimC y4 = d_hidden" "dimT y4 = T * 2 * 2"
    using maps_channels_shape [OF rb _ 4] s3 by (simp_all add: shape_eq_iff)
  obtain y5 where 5: "ResidualBlock1d mm (\<theta> 4) d_hidden d_out 5 y4 = Inr y5"
    using maps_channels_returns [OF rb, of y4 d_hidden] s4 pos by auto
  show ?thesis
    unfolding PostNet_forward_Inr using 1 2 3 4 5 by blast
qed

text \<open>
  Claim C4. PostNet.forward is an upsampling network: on an input of shape
  (N, d_in, T) whatever it returns has time length 4 * T (and shape (N, d_out, 4 * T)),
  through two nearest-neighbour Upsample layers of scale factor 2 and residual blocks
  that keep the time length; it does return when T, d_in and d_hidden are positive.
\<close>

theorem PostNet_upsamples_by_four:
  assumes "residual_keeps_length mm" and "shape x = (N, d_in, T)"
  shows "(\<forall>y. PostNet_forward (PostNet_init mm \<theta> d_in d_out d_hidden) x = Inr y \<longrightarrow>
            shape y = (N, d_out, 4 * T)) \<and>
         (0 < T \<longrightarrow> 0 < d_in \<longrightarrow> 0 < d_hidden \<longrightarrow>
            (\<exists>y. PostNet_forward (PostNet_init mm \<theta> d_in d_out d_hidden) x = Inr y))"
  using PostNet_forward_shape [OF assms] PostNet_forward_returns [OF assms] by blast

theorem PostNet_upsamples_by_four_witness:
  "\<exists>y. PostNet_forward (PostNet_init ref_modules ones_params 2 3 4) (ramp 1 2 5) = Inr y \<and>
       shape y = (1, 3, 20)"
proof -
  have x: "shape (ramp 1 2 5) = (1, 2, 5)" by (rule shape_ramp)
  note inst = PostNet_upsamples_by_four [OF ref_modules_residual x, of ones_params 3 4, simplified]
  from inst show ?thesis by auto
qed

section \<open>Causality of the audio encoder and decoder\<close>

lemma causalI:
  assumes "\<And>x x' y y' t. f x = Inr y \<Longrightarrow> f x' = Inr y' \<Longrightarrow> agree_upto t x x' \<Longrightarrow> agree_upto t y y'"
  shows "causal f"
  using assms unfolding causal_def by blast

lemma causalD:
  "causal f \<Longrightarrow> f x = Inr y \<Longrightarrow> f x' = Inr y' \<Longrightarrow> agree_upto t x x' \<Longrightarrow> agree_upto t y y'"
  unfolding causal_def by blast

lemma agree_uptoI:
  assumes "dimN x = dimN x'" "dimC x = dimC x'" "t < dimT x" "t < dimT x'"
    and "\<And>n c s. n < dimN x \<Longrightarrow> c < dimC x \<Longrightarrow> s \<le> t \<Longrightarrow> elt x n c s = elt x' n c s"
  shows "agree_upto t x x'"
  using assms unfolding agree_upto_def by blast

lemma agree_upto_dims:
  "agree_upto t x x' \<Longrightarrow> dimN x = dimN x' \<and> dimC x = dimC x' \<and> t < dimT x \<and> t < dimT x'"
  unfolding agree_upto_def by blast

lemma agree_upto_elt:
  "agree_upto t x x' \<Longrightarrow> n < dimN x \<Longrightarrow> c < dimC x \<Longrightarrow> s \<le> t \<Longrightarrow> elt x n c s = elt x' n c s"
  unfolding agree_upto_def by blast

lemma causal_compose:
  assumes f: "causal f" and g: "causal g"
  shows "causal (\<lambda>x. rbind (f x) g)"
proof (rule causalI)
  fix x x' z z' t
  assume "rbind (f x) g = Inr z" "rbind (f x') g = Inr z'" and a: "agree_upto t x x'"
  then obtain y y' where y: "f x = Inr y" "g y = Inr z" and y': "f x' = Inr y'" "g y' = Inr z'"
    by (auto simp: rbind_Inr_iff)
  have "agree_upto t y y'" by (rule causalD [OF f y(1) y'(1) a])
  then show "agree_upto t z z'" by (rule causalD [OF g y(2) y'(2)])
qed

lemma causal_Inr: "causal Inr"
  by (rule causalI) simp

lemma causal_run_blocks:
  "(\<And>b. b \<in> set bs \<Longrightarrow> causal b) \<Longrightarrow> causal (run_blocks bs)"
proof (induction bs)
  case Nil
  have "run_blocks [] = Inr" by (rule ext) simp
  then show ?case by (simp add: causal_Inr)
next
  case (Cons b bs)
  have "run_blocks (b # bs) = (\<lambda>x. rbind (b x) (run_blocks bs))" by (rule ext) simp
  moreover have "causal b" "causal (run_blocks bs)" using Cons by simp_all
  ultimately show ?case by (simp add: causal_compose)
qed

lemma agree_upto_pointwise:
  assumes "agree_upto t x x'"
  shows "agree_upto t (pointwise g x) (pointwise g x')"
proof (rule agree_uptoI)
  fix n c s assume "n < dimN (pointwise g x)" "c < dimC (pointwise g x)" "s \<le> t"
  then show "elt (pointwise g x) n c s = elt (pointwise g x') n c s"
    using agree_upto_dims [OF assms] agree_upto_elt [OF assms, of n c s] by simp
qed (use agree_upto_dims [OF assms] in simp_all)

lemma causal_pointwise: "causal (\<lambda>x. Inr (pointwise g x))"
  by (rule causalI) (auto intro: agree_upto_pointwise)

lemma AudioEncoder_init_causal_blocks:
  assumes "causal_layers ll" and "norm_keeps_causal weight_norm"
  shows "b \<in> set (AudioEncoder.hc_blocks (AudioEncoder_init weight_norm ll \<theta> d_in d_out d_hidden))
           \<Longrightarrow> causal b"
  using assms
  unfolding AudioEncoder_init_def AudioEncoder.make_def AudioEncoder.simps
    causal_layers_def norm_keeps_causal_def
  by auto

lemma AudioDecoder_init_causal_blocks:
  assumes "causal_layers ll" and "norm_keeps_causal weight_norm"
  shows "b \<in> set (AudioDecoder.hc_blocks (AudioDecoder_init weight_norm ll \<theta> d_in d_out d_hidden))
           \<Longrightarrow> causal b"
  using assms
  unfolding AudioDecoder_init_def AudioDecoder.make_def AudioDecoder.simps
    causal_layers_def norm_keeps_causal_def
  by auto

text \<open>The reference causal layers are causal and keep the length.\<close>

lemma padded_agree:
  assumes a: "agree_upto t x x'" and "n < dimN x" "c < dimC x" "u \<le> t + padl"
  shows "padded x padl n c u = padded x' padl n c u"
proof (cases "padl \<le> u")
  case True
  then have u: "u - padl \<le> t" using assms(4) by simp
  then have "u - padl < dimT x" "u - padl < dimT x'"
    using agree_upto_dims [OF a] by simp_all
  then show ?thesis
    using True agree_upto_elt [OF a assms(2,3) u] by (simp add: padded_def)
next
  case False
  then show ?thesis by (simp add: padded_def)
qed

lemma conv1d_causal: "causal (conv1d p cin cout k dil ((k - 1) * dil) 0)"
proof (rule causalI)
  fix x x' y y' t
  assume y: "conv1d p cin cout k dil ((k - 1) * dil) 0 x = Inr y"
    and y': "conv1d p cin cout k dil ((k - 1) * dil) 0 x' = Inr y'"
    and a: "agree_upto t x x'"
  note d = agree_upto_dims [OF a]
  have cx: "dimC x = cin" using y by (simp add: conv1d_Inr_iff)
  have dy: "dimN y = dimN x" "dimC y = cout" "dimT y = dimT x"
    using y by (simp_all add: conv1d_Inr_iff mult.commute)
  have dy': "dimN y' = dimN x'" "dimC y' = cout" "dimT y' = dimT x'"
    using y' by (simp_all add: conv1d_Inr_iff mult.commute)
  show "agree_upto t y y'"
  proof (rule agree_uptoI)
    fix n co s
    assume n: "n < dimN y" and co: "co < dimC y" and s: "s \<le> t"
    have pad: "padded x ((k - 1) * dil) n c (s + j * dil) = padded x' ((k - 1) * dil) n c (s + j * dil)"
      if "c < cin" "j < k" for c j
    proof -
      have "j \<le> k - 1" using that by simp
      then have "j * dil \<le> (k - 1) * dil" by (rule mult_le_mono1)
      with s have "s + j * dil \<le> t + (k - 1) * dil" by (rule add_mono)
      then show ?thesis
        using padded_agree [OF a, of n c] n that(1) dy cx by simp
    qed
    have "elt y n co s = bias p co + (\<Sum>c<cin. \<Sum>j<k. weight p co c j * padded x ((k - 1) * dil) n c (s + j * dil))"
      using y n co s d dy by (simp add: conv1d_Inr_iff mult.commute)
    also have "\<dots> = bias p co + (\<Sum>c<cin. \<Sum>j<k. weight p co c j * padded x' ((k - 1) * dil) n c (s + j * dil))"
    proof -
      have "(\<Sum>c<cin. \<Sum>j<k. weight p co c j * padded x ((k - 1) * dil) n c (s + j * dil))
          = (\<Sum>c<cin. \<Sum>j<k. weight p co c j * padded x' ((k - 1) * dil) n c (s + j * dil))"
        by (intro sum.cong refl) (simp only: lessThan_iff pad)
      then show ?thesis by (simp only:)
    qed
    also have "\<dots> = elt y' n co s"
      using y' n co s d dy dy' by (simp add: conv1d_Inr_iff mult.commute)
    finally show "elt y n co s = elt y' n co s" .
  qed (use d dy dy' in simp_all)
qed

lemma agree_upto_activate:
  "agree_upto t y y' \<Longrightarrow> agree_upto t (activate a y) (activate a y')"
  by (cases a) (simp_all add: activate_def agree_upto_pointwise)

lemma causal_activate: "causal f \<Longrightarrow> causal (\<lambda>x. rbind (f x) (\<lambda>y. Inr (activate a y)))"
  by (rule causal_compose) (auto intro!: causalI agree_upto_activate)

lemma causal_highway:
  assumes f: "causal f"
    and ch: "\<And>x H. f x = Inr H \<Longrightarrow> dimN H = dimN x \<and> dimC H = 2 * cout"
  shows "causal (\<lambda>x. rbind (f x) (highway cout x))"
proof (rule causalI)
  fix x x' y y' t
  assume "rbind (f x) (highway cout x) = Inr y" "rbind (f x') (highway cout x') = Inr y'"
    and a: "agree_upto t x x'"
  then obtain H H' where H: "f x = Inr H" "highway cout x H = Inr y"
    and H': "f x' = Inr H'" "highway cout x' H' = Inr y'"
    by (auto simp: rbind_Inr_iff)
  have aH: "agree_upto t H H'" by (rule causalD [OF f H(1) H'(1) a])
  note d = agree_upto_dims [OF a]
  have nH: "dimN H = dimN x" and cH: "dimC H = 2 * cout"
    using ch [OF H(1)] by simp_all
  have dy: "dimN y = dimN x" "dimC y = cout" "dimT y = dimT x" "dimC x = cout"
    using H(2) by (simp_all add: highway_Inr_iff)
  have dy': "dimN y' = dimN x'" "dimC y' = cout" "dimT y' = dimT x'"
    using H'(2) by (simp_all add: highway_Inr_iff)
  show "agree_upto t y y'"
  proof (rule agree_uptoI)
    fix n c s
    assume n: "n < dimN y" and c: "c < dimC y" and s: "s \<le> t"
    have 1: "elt H n c s = elt H' n c s" and 2: "elt H n (cout + c) s = elt H' n (cout + c) s"
      using agree_upto_elt [OF aH, of n _ s] n c s dy cH nH by simp_all
    have 3: "elt x n c s = elt x' n c s"
      using agree_upto_elt [OF a, of n c s] n c s dy by simp
    show "elt y n c s = elt y' n c s"
      using H(2) H'(2) n c s d dy dy' 1 2 3 by (simp add: highway_Inr_iff)
  qed (use d dy dy' in simp_all)
qed

lemma ref_CausalConv1d_unfold:
  "ref_CausalConv1d p i co k d a
      = (\<lambda>x. rbind (conv1d p i co k (case d of None \<Rightarrow> 1 | Some d \<Rightarrow> d)
                       ((k - 1) * (case d of None \<Rightarrow> 1 | Some d \<Rightarrow> d)) 0 x)
               (\<lambda>y. Inr (activate a y)))"
  by (rule ext) (simp add: ref_CausalConv1d_def Let_def)

lemma ref_CausalConv1d_causal: "causal (ref_CausalConv1d p i co k d a)"
  unfolding ref_CausalConv1d_unfold by (rule causal_activate [OF conv1d_causal])

lemma ref_CausalHighwayConv1d_causal: "causal (ref_CausalHighwayConv1d p i co k d)"
proof -
  have "ref_CausalHighwayConv1d p i co k d
      = (\<lambda>x. rbind (conv1d p i (2 * co) k d ((k - 1) * d) 0 x) (highway co x))"
    by (rule ext) (simp add: ref_CausalHighwayConv1d_def)
  moreover have "causal (\<lambda>x. rbind (conv1d p i (2 * co) k d ((k - 1) * d) 0 x) (highway co x))"
    by (rule causal_highway [OF conv1d_causal]) (simp add: conv1d_Inr_iff)
  ultimately show ?thesis by simp
qed

lemma ref_layers_causal: "causal_layers ref_layers"
  by (simp add: causal_layers_def ref_layers_def ref_CausalConv1d_causal
      ref_CausalHighwayConv1d_causal)

lemma ref_CausalConv1d_maps_channels:
  "0 < k \<Longrightarrow> d \<noteq> Some 0 \<Longrightarrow> maps_channels (ref_CausalConv1d p i co k d a) i co"
proof -
  assume k: "0 < k" and d: "d \<noteq> Some 0"
  let ?d = "case d of None \<Rightarrow> 1 | Some d \<Rightarrow> d"
  have "0 < ?d" using d by (cases d) simp_all
  show ?thesis
    unfolding ref_CausalConv1d_unfold
    by (rule maps_channels_activate [OF conv1d_causal_maps_channels [OF k \<open>0 < ?d\<close>]])
qed

lemma ref_CausalHighwayConv1d_maps_channels:
  "0 < k \<Longrightarrow> 0 < d \<Longrightarrow> maps_channels (ref_CausalHighwayConv1d p c c k d) c c"
  unfolding ref_CausalHighwayConv1d_def
  by (rule maps_channels_highway) (rule conv1d_causal_maps_channels)

lemma AudioEncoder_ref_maps_channels:
  "maps_channels (AudioEncoder_forward (AudioEncoder_init ref_norm ref_layers \<theta> d_in d d)) d_in d"
proof -
  let ?m = "AudioEncoder_init ref_norm ref_layers \<theta> d_in d d"
  have "AudioEncoder_forward ?m = run_blocks (AudioEncoder.hc_blocks ?m)"
    by (rule ext) (simp add: AudioEncoder_forward_def)
  moreover have "maps_channels (run_blocks (AudioEncoder.hc_blocks ?m)) d_in d"
    unfolding AudioEncoder_init_def AudioEncoder.make_def AudioEncoder.simps append_Cons append_Nil
    by (rule run_blocks_Cons_maps_channels)
      (auto simp: ref_norm_def ref_layers_def ref_CausalConv1d_maps_channels
        ref_CausalHighwayConv1d_maps_channels)
  ultimately show ?thesis by simp
qed

lemma run_blocks_snoc: "run_blocks (bs @ [b]) x = rbind (run_blocks bs x) b"
  by (induction bs arbitrary: x) (simp_all add: rbind_def split: sum.splits)

lemma maps_channels_sigmoid:
  "maps_channels f a b \<Longrightarrow> maps_channels (\<lambda>x. rbind (f x) (\<lambda>Y. Inr (torch_sigmoid Y))) a b"
  by (rule maps_channels_compose [where b = b])
    (auto intro!: maps_channelsI simp: shape_eq_iff)

lemma AudioDecoder_ref_maps_channels:
  "maps_channels (AudioDecoder_forward (AudioDecoder_init ref_norm ref_layers \<theta> d_in d_out d)) d_in d_out"
proof -
  let ?m = "AudioDecoder_init ref_norm ref_layers \<theta> d_in d_out d"
  have fw: "AudioDecoder_forward ?m
      = (\<lambda>x. rbind (run_blocks (AudioDecoder.hc_blocks ?m) x) (\<lambda>Y. Inr (torch_sigmoid Y)))"
    by (rule ext) (simp add: AudioDecoder_forward_def)
  let ?body = "[ref_CausalConv1d (\<theta> 0) d_in d 1 None (Some relu)]
        @ map (\<lambda>i. ref_CausalHighwayConv1d (\<theta> (1 + i)) d d 3 (3 ^ i)) [0..<4]
        @ map (\<lambda>i. ref_CausalHighwayConv1d (\<theta> (5 + i)) d d 3 1) [0..<2]
        @ map (\<lambda>i. ref_CausalConv1d (\<theta> (7 + i)) d d 1 (Some 1) (Some relu)) [0..<3]"
  have blocks: "AudioDecoder.hc_blocks ?m = ?body @ [ref_CausalConv1d (\<theta> 10) d d_out 1 (Some 1) None]"
    by (simp add: AudioDecoder_init_def AudioDecoder.make_def ref_norm_def ref_layers_def)
  have body: "maps_channels (run_blocks ?body) d_in d"
    unfolding append_Cons append_Nil
    by (rule run_blocks_Cons_maps_channels)
      (auto simp: ref_CausalConv1d_maps_channels ref_CausalHighwayConv1d_maps_channels)
  have last: "maps_channels (ref_CausalConv1d (\<theta> 10) d d_out 1 (Some 1) None) d d_out"
    by (simp add: ref_CausalConv1d_maps_channels)
  have "run_blocks (AudioDecoder.hc_blocks ?m)
      = (\<lambda>x. rbind (run_blocks ?body x) (ref_CausalConv1d (\<theta> 10) d d_out 1 (Some 1) None))"
    by (rule ext) (simp only: blocks run_blocks_snoc)
  then have "maps_channels (run_blocks (AudioDecoder.hc_blocks ?m)) d_in d_out"
    using maps_channels_compose [OF body last] by (simp only:)
  then show ?thesis unfolding fw by (rule maps_channels_sigmoid)
qed

lemma shape_step_input [simp]: "shape step_input = (1, 1, 3)"
  by (simp add: step_input_def shape_def)

lemma ramp_agrees_step_input: "agree_upto 0 (ramp 1 1 2) step_input"
  by (rule agree_uptoI) (simp_all add: ramp_def step_input_def)

text \<open>
  Claim C3. AudioEncoder.forward and AudioDecoder.forward are causal in the time
  axis: on two inputs that agree at all time steps up to and including t, the outputs
  agree at all time steps up to and including t. Every block is a causal convolution
  or a causal highway convolution under weight normalisation; the causal layer
  classes are taken to build causal layers and weight normalisation to keep a layer
  causal. The decoder ends with an elementwise sigmoid.
\<close>

theorem audio_encoder_decoder_causal:
  assumes "causal_layers ll" and "norm_keeps_causal weight_norm"
  shows "causal (AudioEncoder_forward (AudioEncoder_init weight_norm ll \<theta> d_in d_out d_hidden)) \<and>
         causal (AudioDecoder_forward (AudioDecoder_init weight_norm ll \<theta>' d_in' d_out' d_hidden'))"
proof
  have "AudioEncoder_forward (AudioEncoder_init weight_norm ll \<theta> d_in d_out d_hidden)
      = run_blocks (AudioEncoder.hc_blocks (AudioEncoder_init weight_norm ll \<theta> d_in d_out d_hidden))"
    by (rule ext) (simp add: AudioEncoder_forward_def)
  then show "causal (AudioEncoder_forward (AudioEncoder_init weight_norm ll \<theta> d_in d_out d_hidden))"
    using causal_run_blocks [OF AudioEncoder_init_causal_blocks [OF assms]] by simp
next
  let ?m = "AudioDecoder_init weight_norm ll \<theta>' d_in' d_out' d_hidden'"
  have "AudioDecoder_forward ?m
      = (\<lambda>x. rbind (run_blocks (AudioDecoder.hc_blocks ?m) x) (\<lambda>Y. Inr (torch_sigmoid Y)))"
    by (rule ext) (simp add: AudioDecoder_forward_def)
  moreover have "causal (run_blocks (AudioDecoder.hc_blocks ?m))"
    by (rule causal_run_blocks [OF AudioDecoder_init_causal_blocks [OF assms]])
  moreover have "causal (\<lambda>Y. Inr (torch_sigmoid Y))"
    unfolding torch_sigmoid_def by (rule causal_pointwise)
  ultimately show "causal (AudioDecoder_forward ?m)"
    by (simp add: causal_compose)
qed

theorem audio_encoder_decoder_causal_witness:
  "\<exists>y y' z z'.
     AudioEncoder_forward (AudioEncoder_init ref_norm ref_layers ones_params 1 2 2) (ramp 1 1 2) = Inr y \<and>
     AudioEncoder_forward (AudioEncoder_init ref_norm ref_layers ones_params 1 2 2) step_input = Inr y' \<and>
     elt (ramp 1 1 2) 0 0 1 \<noteq> elt step_input 0 0 1 \<and> agree_upto 0 y y' \<and>
     AudioDecoder_forward (AudioDecoder_init ref_norm ref_layers ones_params 1 3 2) (ramp 1 1 2) = Inr z \<and>
     AudioDecoder_forward (AudioDecoder_init ref_norm ref_layers ones_params 1 3 2) step_input = Inr z' \<and>
     agree_upto 0 z z'"
proof -
  let ?E = "AudioEncoder_forward (AudioEncoder_init ref_norm ref_layers ones_params 1 2 2)"
  let ?D = "AudioDecoder_forward (AudioDecoder_init ref_norm ref_layers ones_params 1 3 2)"
  have dims: "dimC (ramp 1 1 2) = 1" "0 < dimT (ramp 1 1 2)" "dimC step_input = 1" "0 < dimT step_input"
    by (simp_all add: ramp_def step_input_def)
  obtain y y' where y: "?E (ramp 1 1 2) = Inr y" "?E step_input = Inr y'"
    using maps_channels_returns [OF AudioEncoder_ref_maps_channels dims(1,2)]
      maps_channels_returns [OF AudioEncoder_ref_maps_channels dims(3,4)] by blast
  obtain z z' where z: "?D (ramp 1 1 2) = Inr z" "?D step_input = Inr z'"
    using maps_channels_returns [OF AudioDecoder_ref_maps_channels dims(1,2)]
      maps_channels_returns [OF AudioDecoder_ref_maps_channels dims(3,4)] by blast
  note c = audio_encoder_decoder_causal [OF ref_layers_causal ref_norm_keeps_causal,
      of ones_params 1 2 2 ones_params 1 3 2]
  have "agree_upto 0 y y'"
    by (rule causalD [OF conjunct1 [OF c] y ramp_agrees_step_input])
  moreover have "agree_upto 0 z z'"
    by (rule causalD [OF conjunct2 [OF c] z ramp_agrees_step_input])
  moreover have "elt (ramp 1 1 2) 0 0 1 \<noteq> elt step_input 0 0 1"
    by (simp add: ramp_def step_input_def)
  ultimately show ?thesis using y z by blast
qed

section \<open>Where failures come from\<close>

lemma block_failure_Nil [simp]: "\<not> block_failure [] x e"
  by (simp add: block_failure_def)

lemma block_failure_Cons:
  "block_failure (b # bs) x e \<longleftrightarrow> b x = Inl e \<or> (\<exists>y. b x = Inr y \<and> block_failure bs y e)"
proof
  assume "block_failure (b # bs) x e"
  then obtain i y where i: "i < length (b # bs)"
    and run: "run_blocks (take i (b # bs)) x = Inr y" and fail: "((b # bs) ! i) y = Inl e"
    unfolding block_failure_def by blast
  show "b x = Inl e \<or> (\<exists>y. b x = Inr y \<and> block_failure bs y e)"
  proof (cases i)
    case 0
    then show ?thesis using run fail by simp
  next
    case (Suc j)
    then obtain y0 where "b x = Inr y0" "run_blocks (take j bs) y0 = Inr y"
      using run by (auto simp: rbind_Inr_iff)
    moreover have "j < length bs" "(bs ! j) y = Inl e" using i fail Suc by simp_all
    ultimately show ?thesis unfolding block_failure_def by blast
  qed
next
  assume "b x = Inl e \<or> (\<exists>y. b x = Inr y \<and> block_failure bs y e)"
  then show "block_failure (b # bs) x e"
  proof
    assume "b x = Inl e"
    then have "0 < length (b # bs) \<and> run_blocks (take 0 (b # bs)) x = Inr x \<and> ((b # bs) ! 0) x = Inl e"
      by simp
    then show ?thesis unfolding block_failure_def by blast
  next
    assume "\<exists>y. b x = Inr y \<and> block_failure bs y e"
    then obtain y0 j y where "b x = Inr y0" "j < length bs"
      "run_blocks (take j bs) y0 = Inr y" "(bs ! j) y = Inl e"
      unfolding block_failure_def by blast
    then have "Suc j < length (b # bs) \<and> run_blocks (take (Suc j) (b # bs)) x = Inr y \<and>
        ((b # bs) ! Suc j) y = Inl e"
      by (simp add: rbind_Inr_iff)
    then show ?thesis unfolding block_failure_def by blast
  qed
qed

lemma run_blocks_Inl_iff: "run_blocks bs x = Inl e \<longleftrightarrow> block_failure bs x e"
  by (induction bs arbitrary: x) (simp_all add: rbind_Inl_iff block_failure_Cons)

lemma DotProductAttention_forward_Inl:
  "DotProductAttention_forward num self Q K V = Inl e \<longleftrightarrow>
     linear_q self Q = Inl e \<or>
     (\<exists>q. linear_q self Q = Inr q \<and>
        (linear_k self K = Inl e \<or>
         (\<exists>k. linear_k self K = Inr k \<and>
            (linear_v self V = Inl e \<or>
             (\<exists>v. linear_v self V = Inr v \<and>
                (bmm (transpose12 (torch_tanh k)) (torch_tanh q) = Inl e \<or>
                 (\<exists>S. bmm (transpose12 (torch_tanh k)) (torch_tanh q) = Inr S \<and>
                    bmm (torch_tanh v)
                      (softmax_dim1 num (div_scalar num S (np_sqrt num (d_k self)))) = Inl e)))))))"
  by (simp add: DotProductAttention_forward_def rbind_Inl_iff Let_def)

lemma TextEncoder_forward_Inl:
  "TextEncoder_forward self L = Inl e \<longleftrightarrow>
     block_failure (TextEncoder.hc_blocks self) L e \<or>
     (\<exists>y. run_blocks (TextEncoder.hc_blocks self) L = Inr y \<and>
          length (chunk_dim1 y 2) \<noteq> 2 \<and> e = ValueError)"
  by (simp add: TextEncoder_forward_def rbind_Inl_iff run_blocks_Inl_iff unpack2_Inl_iff)

lemma chunk_dim1_single:
  "dimC y = 1 \<Longrightarrow> chunk_dim1 y 2 = [narrow_dim1 y 0 1]"
  by (simp add: chunk_dim1_def Let_def eval_nat_numeral)

text \<open>
  Claim C7, as amended. No forward method raises an exception of its own making or
  turns one failure into another: a forward of AudioEncoder, AudioDecoder, PostNet or
  DotProductAttention fails with e exactly when one of the layer or framework calls it
  makes, reached after the calls before it returned, fails with e. TextEncoder.forward
  fails in the same way, and in one more: when all its blocks returned and the chunk
  call gave a number of tensors other than two, the unpacking into K and V raises the
  interpreter's ValueError.
\<close>

theorem failures_come_from_the_calls:
  "(AudioEncoder_forward ae S = Inl e \<longleftrightarrow> block_failure (AudioEncoder.hc_blocks ae) S e) \<and>
   (AudioDecoder_forward ad R' = Inl e \<longleftrightarrow> block_failure (AudioDecoder.hc_blocks ad) R' e) \<and>
   (PostNet_forward pn x = Inl e \<longleftrightarrow> nets pn x = Inl e) \<and>
   (nets (PostNet_init mm \<theta> d_in d_out d_hidden) x = Inl e \<longleftrightarrow>
      block_failure
        [Upsample_nearest 2, ResidualBlock1d mm (\<theta> 1) d_in d_hidden 5, Upsample_nearest 2,
         ResidualBlock1d mm (\<theta> 3) d_hidden d_hidden 5, ResidualBlock1d mm (\<theta> 4) d_hidden d_out 5] x e) \<and>
   (DotProductAttention_forward num att Q K V = Inl e \<longleftrightarrow>
      linear_q att Q = Inl e \<or>
      (\<exists>q. linear_q att Q = Inr q \<and>
        (linear_k att K = Inl e \<or>
         (\<exists>k. linear_k att K = Inr k \<and>
            (linear_v att V = Inl e \<or>
             (\<exists>v. linear_v att V = Inr v \<and>
                (bmm (transpose12 (torch_tanh k)) (torch_tanh q) = Inl e \<or>
                 (\<exists>S. bmm (transpose12 (torch_tanh k)) (torch_tanh q) = Inr S \<and>
                    bmm (torch_tanh v)
                      (softmax_dim1 num (div_scalar num S (np_sqrt num (d_k att)))) = Inl e)))))))) \<and>
   (TextEncoder_forward te L = Inl e \<longleftrightarrow>
      block_failure (TextEncoder.hc_blocks te) L e \<or>
      (\<exists>y. run_blocks (TextEncoder.hc_blocks te) L = Inr y \<and>
           length (chunk_dim1 y 2) \<noteq> 2 \<and> e = ValueError))"
proof (intro conjI)
  show "AudioEncoder_forward ae S = Inl e \<longleftrightarrow> block_failure (AudioEncoder.hc_blocks ae) S e"
    by (simp add: AudioEncoder_forward_def run_blocks_Inl_iff)
  show "AudioDecoder_forward ad R' = Inl e \<longleftrightarrow> block_failure (AudioDecoder.hc_blocks ad) R' e"
    by (simp add: AudioDecoder_forward_def rbind_Inl_iff run_blocks_Inl_iff)
  show "PostNet_forward pn x = Inl e \<longleftrightarrow> nets pn x = Inl e"
    by (simp add: PostNet_forward_def rbind_Inl_iff)
  show "nets (PostNet_init mm \<theta> d_in d_out d_hidden) x = Inl e \<longleftrightarrow>
      block_failure
        [Upsample_nearest 2, ResidualBlock1d mm (\<theta> 1) d_in d_hidden 5, Upsample_nearest 2,
         ResidualBlock1d mm (\<theta> 3) d_hidden d_hidden 5, ResidualBlock1d mm (\<theta> 4) d_hidden d_out 5] x e"
    by (simp only: PostNet_init_def PostNet.simps Sequential_def run_blocks_Inl_iff)
  show "DotProductAttention_forward num att Q K V = Inl e \<longleftrightarrow>
      linear_q att Q = Inl e \<or>
      (\<exists>q. linear_q att Q = Inr q \<and>
        (linear_k att K = Inl e \<or>
         (\<exists>k. linear_k att K = Inr k \<and>
            (linear_v att V = Inl e \<or>
             (\<exists>v. linear_v att V = Inr v \<and>
                (bmm (transpose12 (torch_tanh k)) (torch_tanh q) = Inl e \<or>
                 (\<exists>S. bmm (transpose12 (torch_tanh k)) (torch_tanh q) = Inr S \<and>
                    bmm (torch_tanh v)
                      (softmax_dim1 num (div_scalar num S (np_sqrt num (d_k att)))) = Inl e)))))))"
    by (rule DotProductAttention_forward_Inl)
  show "TextEncoder_forward te L = Inl e \<longleftrightarrow>
      block_failure (TextEncoder.hc_blocks te) L e \<or>
      (\<exists>y. run_blocks (TextEncoder.hc_blocks te) L = Inr y \<and>
           length (chunk_dim1 y 2) \<noteq> 2 \<and> e = ValueError)"
    by (rule TextEncoder_forward_Inl)
qed

theorem failures_come_from_the_calls_witness:
  "AudioEncoder_forward (AudioEncoder_init ref_norm ref_layers ones_params 1 2 2) (ramp 1 3 2) = Inl RuntimeError \<and>
   block_failure (AudioEncoder.hc_blocks (AudioEncoder_init ref_norm ref_layers ones_params 1 2 2))
     (ramp 1 3 2) RuntimeError"
proof -
  let ?m = "AudioEncoder_init ref_norm ref_layers ones_params 1 2 2"
  have "AudioEncoder_forward ?m (ramp 1 3 2) = Inl RuntimeError"
    by (simp add: AudioEncoder_forward_def AudioEncoder_init_def AudioEncoder.make_def
        ref_norm_def ref_layers_def ref_CausalConv1d_def conv1d_def rbind_def ramp_def)
  then show ?thesis
    using failures_come_from_the_calls [of ?m "ramp 1 3 2" RuntimeError] by blast
qed

text \<open>
  Claim C7 as it was stated has every failure come from a framework or layer call.
  With one hidden channel the text encoder fails at the unpacking although every
  block returned.
\<close>

theorem unpacking_failure_counterexample:
  "TextEncoder_forward (TextEncoder_init ref_norm ref_layers ones_params 1 1 1) (ramp 1 1 3) = Inl ValueError \<and>
   \<not> block_failure (TextEncoder.hc_blocks (TextEncoder_init ref_norm ref_layers ones_params 1 1 1))
       (ramp 1 1 3) ValueError"
proof -
  let ?m = "TextEncoder_init ref_norm ref_layers ones_params 1 1 1"
  note mc = TextEncoder_init_maps_channels [OF ref_layers_same_padding ref_norm_keeps_shapes,
      of ones_params 1 1 1]
  have d: "dimC (ramp 1 1 3) = 1" "0 < dimT (ramp 1 1 3)" by (simp_all add: ramp_def)
  obtain y where y: "run_blocks (TextEncoder.hc_blocks ?m) (ramp 1 1 3) = Inr y"
    using maps_channels_returns [OF mc d] by blast
  have "dimC y = 1"
    using maps_channels_shape [OF mc d(1) y] by (simp add: shape_eq_iff)
  then have "chunk_dim1 y 2 = [narrow_dim1 y 0 1]" by (rule chunk_dim1_single)
  then have "TextEncoder_forward ?m (ramp 1 1 3) = Inl ValueError"
    using y by (simp add: TextEncoder_forward_def rbind_def unpack2_def)
  moreover have "\<not> block_failure (TextEncoder.hc_blocks ?m) (ramp 1 1 3) ValueError"
    using y by (simp add: run_blocks_Inl_iff [symmetric])
  ultimately show ?thesis by blast
qed

section \<open>The final sigmoid\<close>

lemma sigmoid_range: "0 < sigmoid v \<and> sigmoid v < 1"
  by (simp add: sigmoid_def add_pos_pos)

text \<open>
  The sigmoid at the end of AudioDecoder.forward and PostNet.forward: in exact
  arithmetic every entry of a returned tensor lies strictly between 0 and 1.
\<close>

lemma sigmoid_outputs_in_unit_interval:
  "(AudioDecoder_forward ad R' = Inr y \<longrightarrow>
      (\<forall>n<dimN y. \<forall>c<dimC y. \<forall>t<dimT y. 0 < elt y n c t \<and> elt y n c t < 1)) \<and>
   (PostNet_forward pn x = Inr z \<longrightarrow>
      (\<forall>n<dimN z. \<forall>c<dimC z. \<forall>t<dimT z. 0 < elt z n c t \<and> elt z n c t < 1))"
proof (intro conjI impI)
  assume "AudioDecoder_forward ad R' = Inr y"
  then obtain Y where "y = torch_sigmoid Y"
    by (auto simp: AudioDecoder_forward_def rbind_Inr_iff)
  then show "\<forall>n<dimN y. \<forall>c<dimC y. \<forall>t<dimT y. 0 < elt y n c t \<and> elt y n c t < 1"
    by (simp add: torch_sigmoid_def sigmoid_range)
next
  assume "PostNet_forward pn x = Inr z"
  then obtain Y where "z = torch_sigmoid Y"
    by (auto simp: PostNet_forward_def rbind_Inr_iff)
  then show "\<forall>n<dimN z. \<forall>c<dimC z. \<forall>t<dimT z. 0 < elt z n c t \<and> elt z n c t < 1"
    by (simp add: torch_sigmoid_def sigmoid_range)
qed

lemma sigmoid_outputs_in_unit_interval_sample:
  "\<exists>y z. AudioDecoder_forward (AudioDecoder_init ref_norm ref_layers ones_params 1 3 2) (ramp 1 1 2) = Inr y \<and>
     0 < elt y 0 2 1 \<and> elt y 0 2 1 < 1 \<and>
     PostNet_forward (PostNet_init ref_modules ones_params 2 3 4) (ramp 1 2 5) = Inr z \<and>
     0 < elt z 0 2 19 \<and> elt z 0 2 19 < 1"
proof -
  let ?D = "AudioDecoder_forward (AudioDecoder_init ref_norm ref_layers ones_params 1 3 2)"
  let ?P = "PostNet_forward (PostNet_init ref_modules ones_params 2 3 4)"
  have d: "dimC (ramp 1 1 2) = 1" "0 < dimT (ramp 1 1 2)" by (simp_all add: ramp_def)
  obtain y where y: "?D (ramp 1 1 2) = Inr y"
    using maps_channels_returns [OF AudioDecoder_ref_maps_channels d] by blast
  have sy: "dimN y = 1" "dimC y = 3" "dimT y = 2"
    using maps_channels_shape [OF AudioDecoder_ref_maps_channels d(1) y]
    by (simp_all add: shape_eq_iff ramp_def)
  have x: "shape (ramp 1 2 5) = (1, 2, 5)" by (rule shape_ramp)
  obtain z where z: "?P (ramp 1 2 5) = Inr z"
    using PostNet_forward_returns [OF ref_modules_residual x, of 4 ones_params 3] by auto
  have sz: "dimN z = 1" "dimC z = 3" "dimT z = 20"
    using PostNet_forward_shape [OF ref_modules_residual x z] by (simp_all add: shape_eq_iff)
  note r = sigmoid_outputs_in_unit_interval [of _ "ramp 1 1 2" y _ "ramp 1 2 5" z]
  have "0 < elt y 0 2 1 \<and> elt y 0 2 1 < 1"
    using conjunct1 [OF r, rule_format, OF y, of 0 2 1] sy by simp
  moreover have "0 < elt z 0 2 19 \<and> elt z 0 2 19 < 1"
    using conjunct2 [OF r, rule_format, OF z, of 0 2 19] sz by simp
  ultimately show ?thesis using y z by blast
qed

end
